theory Spec2Isabelle
  imports Complex_Main "HOL-Library.Multiset" "HOL-Library.AList"
begin

text \<open>
  A model of \<open>kotaemon/rerankings/ollama.py\<close>: the class \<open>OllamaReranking\<close> with its
  methods \<open>_truncate_text\<close>, \<open>_score_relevance\<close> and \<open>run\<close>, together with the
  parts of Python and of the \<open>requests\<close> and \<open>re\<close> libraries that these methods use.
  Documents are objects in a store, the endpoint is a parameter, and every exception of
  the scoring call is a value.
\<close>

section \<open>Python values used by \<open>OllamaReranking\<close>\<close>

subsection \<open>Floats\<close>

text \<open>
  A Python \<open>float\<close> is a finite number, an infinity or a NaN. Finite values are carried
  as rationals. The conversion of a decimal literal to the nearest binary64 value (with
  overflow to an infinity) is not fixed here: it is the parameter \<open>double_of\<close> of the
  environment below, so every statement holds whatever the rounding does.
\<close>

datatype pyfloat = Fin rat | PInf | NInf | NaN

text \<open>\<open>a < b\<close> on floats: every comparison with a NaN is false.\<close>

fun py_lt :: "pyfloat \<Rightarrow> pyfloat \<Rightarrow> bool" where
  "py_lt NaN b = False"
| "py_lt a NaN = False"
| "py_lt (Fin a) (Fin b) = (a < b)"
| "py_lt (Fin a) PInf = True"
| "py_lt (Fin a) NInf = False"
| "py_lt PInf b = False"
| "py_lt NInf NInf = False"
| "py_lt NInf b = True"

text \<open>
  The builtins \<open>min(a, b)\<close> and \<open>max(a, b)\<close> keep the first argument unless the second
  is strictly smaller (respectively strictly greater).
\<close>

definition py_min :: "pyfloat \<Rightarrow> pyfloat \<Rightarrow> pyfloat" where
  "py_min a b = (if py_lt b a then b else a)"

definition py_max :: "pyfloat \<Rightarrow> pyfloat \<Rightarrow> pyfloat" where
  "py_max a b = (if py_lt a b then b else a)"

text \<open>The expression \<open>max(0.0, min(1.0, score))\<close> of \<open>_score_relevance\<close>.\<close>

definition clamp_score :: "pyfloat \<Rightarrow> pyfloat" where
  "clamp_score score = py_max (Fin 0) (py_min (Fin 1) score)"

text \<open>The default score \<open>0.5\<close>.\<close>

definition default_score :: pyfloat where
  "default_score = Fin (1 / 2)"

text \<open>A float lies in the closed interval from 0.0 to 1.0.\<close>

fun in_unit_interval :: "pyfloat \<Rightarrow> bool" where
  "in_unit_interval (Fin r) = (0 \<le> r \<and> r \<le> 1)"
| "in_unit_interval PInf = False"
| "in_unit_interval NInf = False"
| "in_unit_interval NaN = False"

subsection \<open>Strings\<close>

text \<open>
  A Python \<open>str\<close> is a sequence of code points and \<open>len\<close> counts them. The model uses
  \<open>string\<close>, one \<open>char\<close> per code point, which covers the code points below 256.
  Among those, the decimal digits (what \<open>\d\<close> matches and \<open>float\<close> accepts) are
  \<open>0\<close> to \<open>9\<close>, and the whitespace removed by \<open>str.strip()\<close> is the set below.
\<close>

definition is_digit :: "char \<Rightarrow> bool" where
  "is_digit c = (c \<in> set ''0123456789'')"

definition digit_val :: "char \<Rightarrow> nat" where
  "digit_val c = of_char c - 48"

definition py_isspace :: "char \<Rightarrow> bool" where
  "py_isspace c = ((of_char c :: nat) \<in> set [9, 10, 11, 12, 13, 28, 29, 30, 31, 32, 133, 160])"

definition strip :: "string \<Rightarrow> string" where
  "strip s = rev (dropWhile py_isspace (rev (dropWhile py_isspace s)))"

text \<open>\<open>s.rstrip('/')\<close>.\<close>

definition rstrip_slash :: "string \<Rightarrow> string" where
  "rstrip_slash s = rev (dropWhile (\<lambda>c. c = CHR ''/'') (rev s))"

text \<open>The slice \<open>text[:n]\<close>: a negative \<open>n\<close> counts from the end.\<close>

definition slice_to :: "string \<Rightarrow> int \<Rightarrow> string" where
  "slice_to s n = (if 0 \<le> n then take (nat n) s else take (nat (int (length s) + n)) s)"

subsection \<open>The builtin \<open>float(str)\<close>\<close>

text \<open>
  \<open>float\<close> accepts, after removing surrounding whitespace, an optional sign followed by
  \<open>inf\<close>, \<open>infinity\<close> or \<open>nan\<close> in any letter case, or by a decimal number
  \<open>[digitpart] . digitpart | digitpart [.]\<close> with an optional exponent
  \<open>(e | E) [sign] digitpart\<close>, where a digitpart is a run of digits that may have single
  underscores between digits. Anything else raises \<open>ValueError\<close>, here \<open>None\<close>.
\<close>

fun digitpart_tail :: "string \<Rightarrow> string option" where
  "digitpart_tail [] = Some []"
| "digitpart_tail (c # r) =
     (if is_digit c then map_option ((#) c) (digitpart_tail r)
      else if c = CHR ''_'' then
        (case r of [] \<Rightarrow> None
         | d # r' \<Rightarrow> if is_digit d then map_option ((#) d) (digitpart_tail r') else None)
      else None)"

text \<open>The digits of a digitpart, underscores removed; \<open>None\<close> when the string is not one.\<close>

definition digitpart :: "string \<Rightarrow> string option" where
  "digitpart s =
     (case s of [] \<Rightarrow> None
      | c # r \<Rightarrow> if is_digit c then map_option ((#) c) (digitpart_tail r) else None)"

definition digits_val :: "string \<Rightarrow> nat" where
  "digits_val ds = foldl (\<lambda>n c. 10 * n + digit_val c) 0 ds"

definition lower :: "char \<Rightarrow> char" where
  "lower c = (if (65::nat) \<le> of_char c \<and> (of_char c :: nat) \<le> 90
              then char_of (of_char c + (32::nat)) else c)"

text \<open>Splits at the first character satisfying \<open>P\<close>; the separator is dropped.\<close>

definition split_at :: "(char \<Rightarrow> bool) \<Rightarrow> string \<Rightarrow> string \<times> string option" where
  "split_at P s =
     (case dropWhile (\<lambda>c. \<not> P c) s of
        [] \<Rightarrow> (s, None)
      | _ # r \<Rightarrow> (takeWhile (\<lambda>c. \<not> P c) s, Some r))"

definition split_sign :: "string \<Rightarrow> bool \<times> string" where
  "split_sign s =
     (case s of [] \<Rightarrow> (False, [])
      | c # r \<Rightarrow> if c = CHR ''-'' then (True, r)
                 else if c = CHR ''+'' then (False, r) else (False, s))"

text \<open>The mantissa: its digits and the number of digits after the point.\<close>

definition mantissa :: "string \<Rightarrow> (string \<times> nat) option" where
  "mantissa s =
     (case split_at (\<lambda>c. c = CHR ''.'') s of
        (i, None) \<Rightarrow> map_option (\<lambda>ds. (ds, 0)) (digitpart i)
      | (i, Some f) \<Rightarrow>
          (if f = [] then map_option (\<lambda>ds. (ds, 0)) (digitpart i)
           else case digitpart f of
                  None \<Rightarrow> None
                | Some fs \<Rightarrow>
                    (if i = [] then Some (fs, length fs)
                     else map_option (\<lambda>ds. (ds @ fs, length fs)) (digitpart i))))"

definition exponent :: "string option \<Rightarrow> int option" where
  "exponent e =
     (case e of None \<Rightarrow> Some 0
      | Some s \<Rightarrow>
          (case split_sign s of
             (neg, ds) \<Rightarrow>
               map_option (\<lambda>d. if neg then - int (digits_val d) else int (digits_val d))
                 (digitpart ds)))"

text \<open>The exact value \<open>m * 10 ^ e\<close> of a decimal literal.\<close>

definition scale10 :: "nat \<Rightarrow> int \<Rightarrow> rat" where
  "scale10 m e = (if 0 \<le> e then of_nat m * 10 ^ nat e else of_nat m / 10 ^ nat (- e))"

definition decimal_value :: "string \<Rightarrow> rat option" where
  "decimal_value s =
     (case split_at (\<lambda>c. c = CHR ''e'' \<or> c = CHR ''E'') s of
        (m, e) \<Rightarrow>
          (case mantissa m of
             None \<Rightarrow> None
           | Some (ds, k) \<Rightarrow>
               (case exponent e of
                  None \<Rightarrow> None
                | Some x \<Rightarrow> Some (scale10 (digits_val ds) (x - int k)))))"

text \<open>
  \<open>float(s)\<close>; \<open>double_of\<close> rounds the exact value of a decimal literal to a float.
\<close>

definition py_float :: "(rat \<Rightarrow> pyfloat) \<Rightarrow> string \<Rightarrow> pyfloat option" where
  "py_float double_of s =
     (case split_sign (strip s) of
        (neg, body) \<Rightarrow>
          (if map lower body = ''inf'' \<or> map lower body = ''infinity''
           then Some (if neg then NInf else PInf)
           else if map lower body = ''nan'' then Some NaN
           else map_option (\<lambda>v. double_of (if neg then - v else v)) (decimal_value body)))"

subsection \<open>The pattern \<open>0?\.\d+|[01]\.?\d*\<close> and \<open>re.findall\<close>\<close>

text \<open>\<open>\.\d+\<close> at the start of the string: the matched prefix.\<close>

definition re_dot_digits :: "string \<Rightarrow> string option" where
  "re_dot_digits s =
     (case s of [] \<Rightarrow> None
      | c # r \<Rightarrow> if c = CHR ''.'' \<and> takeWhile is_digit r \<noteq> []
                 then Some (c # takeWhile is_digit r) else None)"

text \<open>
  First alternative \<open>0?\.\d+\<close>: the greedy \<open>0?\<close> takes a leading zero first and gives it
  back when the rest does not match.
\<close>

definition re_alt1 :: "string \<Rightarrow> string option" where
  "re_alt1 s =
     (case s of [] \<Rightarrow> None
      | c # r \<Rightarrow>
          if c = CHR ''0'' then
            (case re_dot_digits r of Some m \<Rightarrow> Some (c # m) | None \<Rightarrow> re_dot_digits s)
          else re_dot_digits s)"

text \<open>Second alternative \<open>[01]\.?\d*\<close>: one of the two digits, a point if there is one,
  then as many digits as follow.\<close>

definition re_alt2 :: "string \<Rightarrow> string option" where
  "re_alt2 s =
     (case s of [] \<Rightarrow> None
      | c # r \<Rightarrow>
          if c = CHR ''0'' \<or> c = CHR ''1'' then
            Some (c # (case r of [] \<Rightarrow> []
                       | d # r' \<Rightarrow> if d = CHR ''.'' then d # takeWhile is_digit r'
                                   else takeWhile is_digit r))
          else None)"

text \<open>The match of the whole pattern at the start of the string, first alternative first.\<close>

definition re_match :: "string \<Rightarrow> string option" where
  "re_match s = (case re_alt1 s of Some m \<Rightarrow> Some m | None \<Rightarrow> re_alt2 s)"

lemma re_match_length: "re_match s = Some m \<Longrightarrow> 0 < length m \<and> length m \<le> length s"
  by (auto simp: re_match_def re_alt1_def re_alt2_def re_dot_digits_def
      intro: le_trans[OF length_takeWhile_le]
      split: list.splits if_splits option.splits)

text \<open>
  \<open>re.findall\<close>: the matches from left to right, each search starting where the previous
  match ended, one character further where there is no match.
\<close>

function re_findall :: "string \<Rightarrow> string list" where
  "re_findall [] = []"
| "re_findall (c # r) =
     (case re_match (c # r) of
        Some m \<Rightarrow> m # re_findall (drop (length m) (c # r))
      | None \<Rightarrow> re_findall r)"
  by pat_completeness auto
termination
proof (relation "measure length")
  show "wf (measure length)" by simp
next
  fix c r m
  assume "re_match (c # r) = Some m"
  from re_match_length[OF this]
  show "(drop (length m) (c # r), c # r) \<in> measure length" by simp
next
  fix c r
  show "(r, c # r) \<in> measure (length :: string \<Rightarrow> nat)" by simp
qed

subsection \<open>Stable sorting with \<open>reverse=True\<close>\<close>

text \<open>
  \<open>list.sort\<close> compares keys with \<open><\<close> only and is stable. With \<open>reverse=True\<close> it
  reverses the list, sorts it in ascending order and reverses the result, which keeps
  elements with equal keys in their original order. The ascending sort is modelled by
  stable insertion.
\<close>

fun insort_lt :: "('a \<Rightarrow> pyfloat) \<Rightarrow> 'a \<Rightarrow> 'a list \<Rightarrow> 'a list" where
  "insort_lt key x [] = [x]"
| "insort_lt key x (y # ys) =
     (if py_lt (key y) (key x) then y # insort_lt key x ys else x # y # ys)"

definition stable_sort :: "('a \<Rightarrow> pyfloat) \<Rightarrow> 'a list \<Rightarrow> 'a list" where
  "stable_sort key xs = foldr (insort_lt key) xs []"

definition sort_reverse :: "('a \<Rightarrow> pyfloat) \<Rightarrow> 'a list \<Rightarrow> 'a list" where
  "sort_reverse key xs = rev (stable_sort key (rev xs))"

section \<open>The HTTP endpoint\<close>

text \<open>Exceptions that the body of the \<open>try\<close> statement can raise.\<close>

datatype py_error =
  ConnectionError | HTTPError | JSONDecodeError | KeyError | IndexError | TypeError
  | AttributeError | ValueError

text \<open>A decoded JSON value, as \<open>response.json()\<close> returns it.\<close>

datatype json =
  JNull | JBool bool | JNum rat | JStr string | JArr "json list" | JObj "(string \<times> json) list"

text \<open>\<open>value[key]\<close> with a string key.\<close>

fun subscript_key :: "json \<Rightarrow> string \<Rightarrow> py_error + json" where
  "subscript_key (JObj kvs) k =
     (case map_of kvs k of None \<Rightarrow> Inl KeyError | Some v \<Rightarrow> Inr v)"
| "subscript_key v k = Inl TypeError"

text \<open>\<open>value[0]\<close>: the keys of a decoded JSON object are strings, so \<open>0\<close> is never one.\<close>

fun subscript_0 :: "json \<Rightarrow> py_error + json" where
  "subscript_0 (JArr []) = Inl IndexError"
| "subscript_0 (JArr (x # xs)) = Inr x"
| "subscript_0 (JObj kvs) = Inl KeyError"
| "subscript_0 (JStr []) = Inl IndexError"
| "subscript_0 (JStr (c # cs)) = Inr (JStr [c])"
| "subscript_0 v = Inl TypeError"

text \<open>\<open>value.strip()\<close>: only a string has the method.\<close>

fun json_strip :: "json \<Rightarrow> py_error + string" where
  "json_strip (JStr s) = Inr (strip s)"
| "json_strip v = Inl AttributeError"

text \<open>
  What \<open>session.post\<close> does: it raises (connection refused, timeout, ...) or returns a
  response with a status code and a body; \<open>None\<close> is a body that is not valid JSON.
\<close>

datatype http_outcome = Failed | Response nat "json option"

text \<open>\<open>response.raise_for_status()\<close> raises for the client and server error codes.\<close>

definition raise_for_status :: "nat \<Rightarrow> py_error + unit" where
  "raise_for_status status = (if 400 \<le> status \<and> status < 600 then Inl HTTPError else Inr ())"

record request =
  url :: string
  authorization :: string
  req_model :: string
  content :: string
  req_temperature :: rat
  req_max_tokens :: nat
  req_timeout :: int

text \<open>
  The environment of the reranker: \<open>respond\<close> gives the outcome of a request after the
  requests sent before it (so the endpoint may answer the same prompt differently each
  time), and \<open>double_of\<close> is the rounding of \<open>float\<close>.
\<close>

record env =
  respond :: "request list \<Rightarrow> request \<Rightarrow> http_outcome"
  double_of :: "rat \<Rightarrow> pyfloat"

section \<open>Documents and the object store\<close>

text \<open>
  A metadata value: the score that \<open>run\<close> stores, or any other value, which \<open>run\<close> only
  copies by reference.
\<close>

datatype mval = MFloat pyfloat | MStr string | MInt int | MRef nat

text \<open>
  A \<open>Document\<close> has a text and a metadata dict, which may be \<open>None\<close>. The dict is an
  association list in insertion order, read with \<open>map_of\<close>.
\<close>

record document =
  "text" :: string
  metadata :: "(string \<times> mval) list option"

text \<open>
  Documents are objects: the store \<open>heap\<close> holds them, a reference is an index into it,
  and the constructor appends a new object. \<open>sent\<close> lists the requests posted so far.
\<close>

record world =
  heap :: "document list"
  sent :: "request list"

definition new_document :: "string \<Rightarrow> (string \<times> mval) list \<Rightarrow> world \<Rightarrow> nat \<times> world" where
  "new_document t m w =
     (length (heap w), w\<lparr>heap := heap w @ [\<lparr>text = t, metadata = Some m\<rparr>]\<rparr>)"

section \<open>\<open>OllamaReranking\<close>\<close>

record config =
  base_url :: string
  model :: string
  api_key :: string
  max_tokens :: "int option"
  temperature :: rat
  timeout :: int

text \<open>
  \<open>_truncate_text\<close>: the guard \<open>self.max_tokens and len(text) > self.max_tokens\<close> is false
  when \<open>max_tokens\<close> is \<open>None\<close> and when it is \<open>0\<close>.
\<close>

definition truncate_text :: "config \<Rightarrow> string \<Rightarrow> string" where
  "truncate_text cfg t =
     (case max_tokens cfg of
        None \<Rightarrow> t
      | Some n \<Rightarrow> if n \<noteq> 0 \<and> int (length t) > n then slice_to t n else t)"

definition prompt :: "string \<Rightarrow> string \<Rightarrow> string" where
  "prompt query doc =
     ''Given the following query and document, rate the relevance of the document ''
     @ ''to the query on a scale from 0.0 to 1.0, where 0.0 means completely ''
     @ ''irrelevant and 1.0 means perfectly relevant.''
     @ [CHR 0x0A, CHR 0x0A] @ ''Query: '' @ query
     @ [CHR 0x0A, CHR 0x0A] @ ''Document: '' @ doc
     @ [CHR 0x0A, CHR 0x0A]
     @ ''Please respond with only a single number between 0.0 and 1.0 ''
     @ ''representing the relevance score.''"

text \<open>The request of \<open>_score_relevance\<close>: URL, session header, payload and timeout.\<close>

definition chat_request :: "config \<Rightarrow> string \<Rightarrow> string \<Rightarrow> request" where
  "chat_request cfg query doc =
     \<lparr>url = rstrip_slash (base_url cfg) @ ''/chat/completions'',
      authorization = ''Bearer '' @ api_key cfg,
      req_model = model cfg,
      content = prompt query doc,
      req_temperature = temperature cfg,
      req_max_tokens = 10,
      req_timeout = timeout cfg\<rparr>"

text \<open>
  From the outcome of the post to the stripped reply:
  \<open>raise_for_status\<close>, \<open>json()\<close>, then \<open>result["choices"][0]["message"]["content"].strip()\<close>.
\<close>

definition reply_content :: "http_outcome \<Rightarrow> py_error + string" where
  "reply_content outcome =
     (case outcome of
        Failed \<Rightarrow> Inl ConnectionError
      | Response status body \<Rightarrow>
          (case raise_for_status status of
             Inl e \<Rightarrow> Inl e
           | Inr _ \<Rightarrow>
              (case body of
                 None \<Rightarrow> Inl JSONDecodeError
               | Some result \<Rightarrow>
                  (case subscript_key result ''choices'' of
                     Inl e \<Rightarrow> Inl e
                   | Inr choices \<Rightarrow>
                      (case subscript_0 choices of
                         Inl e \<Rightarrow> Inl e
                       | Inr choice \<Rightarrow>
                          (case subscript_key choice ''message'' of
                             Inl e \<Rightarrow> Inl e
                           | Inr message \<Rightarrow>
                              (case subscript_key message ''content'' of
                                 Inl e \<Rightarrow> Inl e
                               | Inr c \<Rightarrow> json_strip c)))))))"

text \<open>
  The inner \<open>try\<close>: the direct parse, and in the handler of its \<open>ValueError\<close> the first
  match of the pattern. A \<open>ValueError\<close> of the second \<open>float\<close> would leave the handler.
\<close>

definition extract_score :: "(rat \<Rightarrow> pyfloat) \<Rightarrow> string \<Rightarrow> py_error + pyfloat" where
  "extract_score rnd reply =
     (case py_float rnd reply of
        Some score \<Rightarrow> Inr (clamp_score score)
      | None \<Rightarrow>
          (case re_findall reply of
             [] \<Rightarrow> Inr default_score
           | number # _ \<Rightarrow>
               (case py_float rnd number of
                  Some score \<Rightarrow> Inr (clamp_score score)
                | None \<Rightarrow> Inl ValueError)))"

text \<open>The body of the outer \<open>try\<close>, given the outcome of the post.\<close>

definition try_score :: "(rat \<Rightarrow> pyfloat) \<Rightarrow> http_outcome \<Rightarrow> py_error + pyfloat" where
  "try_score rnd outcome =
     (case reply_content outcome of
        Inl e \<Rightarrow> Inl e
      | Inr reply \<Rightarrow> extract_score rnd reply)"

text \<open>
  \<open>_score_relevance\<close>: posts the request, and \<open>except Exception\<close> turns every error of
  the body into the default score.
\<close>

definition score_relevance :: "env \<Rightarrow> config \<Rightarrow> string \<Rightarrow> string \<Rightarrow> world \<Rightarrow> pyfloat \<times> world" where
  "score_relevance e cfg query doc w =
     (let req = chat_request cfg query doc;
          outcome = respond e (sent w) req;
          w' = w\<lparr>sent := sent w @ [req]\<rparr>
      in (case try_score (double_of e) outcome of
            Inl err \<Rightarrow> (default_score, w')
          | Inr score \<Rightarrow> (score, w')))"

text \<open>\<open>doc.metadata or {}\<close>.\<close>

definition metadata_or_empty :: "document \<Rightarrow> (string \<times> mval) list" where
  "metadata_or_empty d = (case metadata d of None \<Rightarrow> [] | Some m \<Rightarrow> m)"

text \<open>
  The loop of \<open>run\<close> over the references \<open>documents\<close>, with the list \<open>scored_docs\<close>
  built so far. \<open>{**m, "rerank_score": score}\<close> copies the entries and sets the key.
\<close>

fun score_loop ::
  "env \<Rightarrow> config \<Rightarrow> string \<Rightarrow> nat list \<Rightarrow> (pyfloat \<times> nat) list \<Rightarrow> world
     \<Rightarrow> (pyfloat \<times> nat) list \<times> world" where
  "score_loop e cfg query [] scored_docs w = (scored_docs, w)"
| "score_loop e cfg query (doc # rest) scored_docs w =
     (let d = heap w ! doc;
          doc_text = truncate_text cfg (text d);
          (score, w1) = score_relevance e cfg query doc_text w;
          (scored_doc, w2) =
             new_document (text d)
               (AList.update ''rerank_score'' (MFloat score) (metadata_or_empty d)) w1
      in score_loop e cfg query rest (scored_docs @ [(score, scored_doc)]) w2)"

text \<open>\<open>run\<close>: the references of the reranked documents and the world after the call.\<close>

definition run :: "env \<Rightarrow> config \<Rightarrow> string \<Rightarrow> nat list \<Rightarrow> world \<Rightarrow> nat list \<times> world" where
  "run e cfg query documents w =
     (if documents = [] then (documents, w)
      else let (scored_docs, w') = score_loop e cfg query documents [] w
           in (map snd (sort_reverse fst scored_docs), w'))"

section \<open>Notions used in the statements\<close>

text \<open>\<open>a >= b\<close> on floats.\<close>

definition py_ge :: "pyfloat \<Rightarrow> pyfloat \<Rightarrow> bool" where
  "py_ge a b = (py_lt b a \<or> (a = b \<and> a \<noteq> NaN))"

text \<open>\<open>doc.metadata["rerank_score"]\<close> when it is there and a float.\<close>

definition rerank_score :: "document \<Rightarrow> pyfloat option" where
  "rerank_score d =
     (case map_of (metadata_or_empty d) ''rerank_score'' of
        Some (MFloat s) \<Rightarrow> Some s
      | _ \<Rightarrow> None)"

text \<open>The document that the loop of \<open>run\<close> builds from a document and its score.\<close>

definition scored_copy :: "document \<Rightarrow> pyfloat \<Rightarrow> document" where
  "scored_copy d s =
     \<lparr>text = text d,
      metadata = Some (AList.update ''rerank_score'' (MFloat s) (metadata_or_empty d))\<rparr>"

text \<open>The request that \<open>run\<close> sends for a document.\<close>

definition doc_request :: "config \<Rightarrow> string \<Rightarrow> document \<Rightarrow> request" where
  "doc_request cfg query d = chat_request cfg query (truncate_text cfg (text d))"

text \<open>
  The scores that successive calls of \<open>_score_relevance\<close> return for a list of
  documents, the first call made after the requests \<open>sent_log\<close>.
\<close>

fun loop_scores :: "env \<Rightarrow> config \<Rightarrow> string \<Rightarrow> document list \<Rightarrow> request list \<Rightarrow> pyfloat list" where
  "loop_scores e cfg query [] sent_log = []"
| "loop_scores e cfg query (d # ds) sent_log =
     (case try_score (double_of e) (respond e sent_log (doc_request cfg query d)) of
        Inl err \<Rightarrow> default_score
      | Inr s \<Rightarrow> s)
     # loop_scores e cfg query ds (sent_log @ [doc_request cfg query d])"

text \<open>The documents that a list of references denotes.\<close>

definition inputs :: "world \<Rightarrow> nat list \<Rightarrow> document list" where
  "inputs w docs = map ((!) (heap w)) docs"

text \<open>The scores that \<open>run\<close> gives to its input documents, in input order.\<close>

definition scores :: "env \<Rightarrow> config \<Rightarrow> string \<Rightarrow> nat list \<Rightarrow> world \<Rightarrow> pyfloat list" where
  "scores e cfg query docs w = loop_scores e cfg query (inputs w docs) (sent w)"

text \<open>
  The references of the documents that \<open>run\<close> creates, in input order: reference
  \<open>length (heap w) + i\<close> is the document built from the \<open>i\<close>-th input.
\<close>

definition copies :: "world \<Rightarrow> nat list \<Rightarrow> nat list" where
  "copies w docs = [length (heap w) ..< length (heap w) + length docs]"

text \<open>The rational behind a finite float.\<close>

fun rat_of :: "pyfloat \<Rightarrow> rat" where
  "rat_of (Fin r) = r"
| "rat_of PInf = 0"
| "rat_of NInf = 0"
| "rat_of NaN = 0"





text \<open>The body of the \<open>try\<close> statement raises.\<close>

definition raises :: "py_error + 'a \<Rightarrow> bool" where
  "raises r = (case r of Inl err \<Rightarrow> True | Inr v \<Rightarrow> False)"

text \<open>
  A decoded body has the fields that \<open>_score_relevance\<close> reads: an object whose
  \<open>choices\<close> is a list that starts with an object, whose \<open>message\<close> is an object, whose
  \<open>content\<close> is a string.
\<close>

definition has_reply :: "json \<Rightarrow> bool" where
  "has_reply j =
     (case j of
        JObj kvs \<Rightarrow>
          (case map_of kvs ''choices'' of
             Some (JArr (JObj choice # rest)) \<Rightarrow>
               (case map_of choice ''message'' of
                  Some (JObj message) \<Rightarrow>
                    (case map_of message ''content'' of
                       Some (JStr c) \<Rightarrow> True
                     | _ \<Rightarrow> False)
                | _ \<Rightarrow> False)
           | _ \<Rightarrow> False)
      | _ \<Rightarrow> False)"

section \<open>A concrete run\<close>

text \<open>A successful response whose reply is the given text.\<close>

definition chat_reply :: "string \<Rightarrow> http_outcome" where
  "chat_reply s =
     Response 200
       (Some (JObj [(''choices'',
          JArr [JObj [(''message'',
            JObj [(''role'', JStr ''assistant''), (''content'', JStr s)])]])]))"

text \<open>
  An endpoint that answers the first request with \<open>0.1\<close>, the second with \<open>0.95\<close>
  between blanks, fails on the third and answers every later one with words only.
\<close>

definition demo_env :: env where
  "demo_env =
     \<lparr>respond = (\<lambda>sent_log req.
        if length sent_log = 0 then chat_reply ''0.1''
        else if length sent_log = 1 then chat_reply '' 0.95 ''
        else if length sent_log = 2 then Failed
        else chat_reply ''Definitely relevant!''),
      double_of = Fin\<rparr>"

definition demo_config :: config where
  "demo_config =
     \<lparr>base_url = ''http://localhost:11434/v1/'', model = ''qwen2.5:7b'',
      api_key = ''ollama'', max_tokens = Some 512, temperature = 0, timeout = 30\<rparr>"

definition demo_world :: world where
  "demo_world =
     \<lparr>heap =
        [\<lparr>text = ''Bananas are yellow.'', metadata = None\<rparr>,
         \<lparr>text = ''Paris is the capital of France.'',
          metadata = Some [(''source'', MStr ''wiki''), (''rerank_score'', MInt 3)]\<rparr>,
         \<lparr>text = ''France is in Europe.'', metadata = Some []\<rparr>,
         \<lparr>text = ''Lyon is a city.'', metadata = Some [(''page'', MInt 7)]\<rparr>],
      sent = []\<rparr>"

text \<open>An endpoint that is down: every request fails.\<close>

definition down_env :: env where
  "down_env = \<lparr>respond = (\<lambda>sent_log req. Failed), double_of = Fin\<rparr>"

text \<open>
  An endpoint that answers every request with the status 300 and a body that has the
  reply \<open>0.9\<close>.
\<close>

definition choices_env :: env where
  "choices_env =
     \<lparr>respond = (\<lambda>sent_log req.
        Response 300
          (Some (JObj [(''choices'',
             JArr [JObj [(''message'', JObj [(''content'', JStr ''0.9'')])]])]))),
      double_of = Fin\<rparr>"

text \<open>The configuration with a maximal input length of five characters.\<close>

definition short_config :: config where
  "short_config = demo_config\<lparr>max_tokens := Some 5\<rparr>"

section \<open>Scores and the scoring loop\<close>

lemma clamp_score_unit: "in_unit_interval (clamp_score s)"
  by (cases s) (auto simp: clamp_score_def py_min_def py_max_def)

lemma default_score_unit: "in_unit_interval default_score"
  by (simp add: default_score_def)

lemma extract_score_unit: "extract_score rnd reply = Inr s \<Longrightarrow> in_unit_interval s"
  by (auto simp: extract_score_def clamp_score_unit default_score_unit
      split: option.splits list.splits)

lemma try_score_unit: "try_score rnd outcome = Inr s \<Longrightarrow> in_unit_interval s"
  by (auto simp: try_score_def split: sum.splits dest: extract_score_unit)

lemma score_relevance_eq:
  "score_relevance e cfg query doc w =
     ((case try_score (double_of e) (respond e (sent w) (chat_request cfg query doc)) of
         Inl err \<Rightarrow> default_score | Inr s \<Rightarrow> s),
      w\<lparr>sent := sent w @ [chat_request cfg query doc]\<rparr>)"
  by (simp add: score_relevance_def Let_def split: sum.splits)


lemma loop_scores_length: "length (loop_scores e cfg query ds sent_log) = length ds"
  by (induction ds arbitrary: sent_log) auto

lemma loop_scores_unit: "s \<in> set (loop_scores e cfg query ds sent_log) \<Longrightarrow> in_unit_interval s"
  by (induction ds arbitrary: sent_log) (auto simp: default_score_unit split: sum.splits dest: try_score_unit)

lemma score_loop_eq:
  assumes "\<forall>a\<in>set docs. a < length (heap w)"
  shows "score_loop e cfg query docs acc w =
     (acc @ zip (loop_scores e cfg query (map ((!) (heap w)) docs) (sent w))
                [length (heap w) ..< length (heap w) + length docs],
      w\<lparr>heap := heap w @ map2 scored_copy (map ((!) (heap w)) docs)
                          (loop_scores e cfg query (map ((!) (heap w)) docs) (sent w)),
        sent := sent w @ map (doc_request cfg query) (map ((!) (heap w)) docs)\<rparr>)"
  using assms
proof (induction docs arbitrary: acc w)
  case Nil
  then show ?case by simp
next
  case (Cons a docs)
  define d where "d = heap w ! a"
  define s where "s = (case try_score (double_of e) (respond e (sent w) (doc_request cfg query d)) of
        Inl err \<Rightarrow> default_score | Inr s \<Rightarrow> s)"
  define w2 where "w2 = w\<lparr>sent := sent w @ [doc_request cfg query d], heap := heap w @ [scored_copy d s]\<rparr>"
  have step: "score_loop e cfg query (a # docs) acc w =
      score_loop e cfg query docs (acc @ [(s, length (heap w))]) w2"
    by (simp add: score_relevance_eq new_document_def d_def s_def w2_def doc_request_def scored_copy_def Let_def)
  have wf2: "\<forall>b\<in>set docs. b < length (heap w2)"
    using Cons.prems by (simp add: w2_def less_Suc_eq)
  have same: "map ((!) (heap w2)) docs = map ((!) (heap w)) docs"
    using Cons.prems by (simp add: w2_def nth_append)
  have upt: "[length (heap w) ..< Suc (length (heap w) + length docs)] =
      length (heap w) # [Suc (length (heap w)) ..< Suc (length (heap w) + length docs)]"
    by (simp add: upt_conv_Cons del: upt_Suc)
  show ?case
    unfolding step Cons.IH[OF wf2] same
    by (simp add: w2_def d_def[symmetric] s_def[symmetric] upt del: upt_Suc)
qed

section \<open>The sort\<close>

lemma mset_insort_lt: "mset (insort_lt key x ys) = add_mset x (mset ys)"
  by (induction ys) auto

lemma mset_stable_sort: "mset (stable_sort key xs) = mset xs"
  by (induction xs) (auto simp: stable_sort_def mset_insort_lt)

lemma mset_sort_reverse: "mset (sort_reverse key xs) = mset xs"
  by (simp add: sort_reverse_def mset_stable_sort)

lemma set_sort_reverse: "set (sort_reverse key xs) = set xs"
  by (metis mset_sort_reverse set_mset_mset)

lemma length_sort_reverse: "length (sort_reverse key xs) = length xs"
  by (metis mset_sort_reverse size_mset)

lemma py_lt_unit:
  "in_unit_interval a \<Longrightarrow> in_unit_interval b \<Longrightarrow> py_lt a b = (rat_of a < rat_of b)"
  by (cases a; cases b) auto

lemma py_ge_unit:
  "in_unit_interval a \<Longrightarrow> in_unit_interval b \<Longrightarrow> py_ge a b = (rat_of b \<le> rat_of a)"
  by (cases a; cases b) (auto simp: py_ge_def)

lemma unit_eq_iff:
  "in_unit_interval a \<Longrightarrow> in_unit_interval b \<Longrightarrow> (a = b) = (rat_of a = rat_of b)"
  by (cases a; cases b) auto

lemma insort_lt_insort_key:
  assumes "in_unit_interval (key x)" and "\<forall>y\<in>set ys. in_unit_interval (key y)"
  shows "insort_lt key x ys = insort_key (\<lambda>x. rat_of (key x)) x ys"
  using assms by (induction ys) (auto simp: py_lt_unit)

lemma stable_sort_sort_key:
  assumes "\<forall>x\<in>set xs. in_unit_interval (key x)"
  shows "stable_sort key xs = sort_key (\<lambda>x. rat_of (key x)) xs"
  using assms
proof (induction xs)
  case Nil
  then show ?case by (simp add: stable_sort_def)
next
  case (Cons x xs)
  then have IH: "stable_sort key xs = sort_key (\<lambda>x. rat_of (key x)) xs" by simp
  have "stable_sort key (x # xs) = insort_lt key x (stable_sort key xs)"
    by (simp add: stable_sort_def)
  also have "\<dots> = insort_key (\<lambda>x. rat_of (key x)) x (stable_sort key xs)"
    using Cons.prems by (intro insort_lt_insort_key) (simp_all add: IH)
  finally show ?case by (simp add: IH)
qed

lemma sort_reverse_sort_key:
  assumes "\<forall>x\<in>set xs. in_unit_interval (key x)"
  shows "sort_reverse key xs = rev (sort_key (\<lambda>x. rat_of (key x)) (rev xs))"
  using assms by (simp add: sort_reverse_def stable_sort_sort_key)

lemma sort_reverse_sorted:
  assumes "\<forall>x\<in>set xs. in_unit_interval (key x)"
  shows "sorted_wrt (\<lambda>a b. py_ge a b) (map key (sort_reverse key xs))"
proof -
  let ?ys = "sort_key (\<lambda>x. rat_of (key x)) (rev xs)"
  have "sorted (map (\<lambda>x. rat_of (key x)) ?ys)" by (rule sorted_sort_key)
  then have "sorted_wrt (\<lambda>a b. rat_of (key a) \<le> rat_of (key b)) ?ys"
    by (simp add: sorted_wrt_map)
  then have "sorted_wrt (\<lambda>a b. rat_of (key b) \<le> rat_of (key a)) (rev ?ys)"
    by (simp add: sorted_wrt_rev)
  moreover have "\<forall>y\<in>set (rev ?ys). in_unit_interval (key y)"
    using assms by simp
  ultimately have "sorted_wrt (\<lambda>a b. py_ge (key a) (key b)) (rev ?ys)"
    by (auto intro: sorted_wrt_mono_rel[rotated] simp: py_ge_unit)
  then show ?thesis
    using assms by (simp add: sort_reverse_sort_key sorted_wrt_map)
qed

lemma sort_reverse_stable:
  assumes "\<forall>x\<in>set xs. in_unit_interval (key x)"
  shows "filter (\<lambda>y. key y = k) (sort_reverse key xs) = filter (\<lambda>y. key y = k) xs"
proof (cases "in_unit_interval k")
  case True
  have eq: "\<And>ys. set ys = set xs \<Longrightarrow>
      filter (\<lambda>y. key y = k) ys = filter (\<lambda>y. rat_of (key y) = rat_of k) ys"
    using assms True
    by (intro filter_cong) (auto simp: unit_eq_iff)
  have "filter (\<lambda>y. key y = k) (sort_reverse key xs) =
        filter (\<lambda>y. rat_of (key y) = rat_of k) (sort_reverse key xs)"
    by (rule eq) (rule set_sort_reverse)
  also have "\<dots> = rev (filter (\<lambda>y. rat_of (key y) = rat_of k) (sort_key (\<lambda>x. rat_of (key x)) (rev xs)))"
    using assms by (simp add: sort_reverse_sort_key rev_filter)
  also have "\<dots> = rev (filter (\<lambda>y. rat_of (key y) = rat_of k) (rev xs))"
    by (simp only: sort_key_stable)
  also have "\<dots> = filter (\<lambda>y. rat_of (key y) = rat_of k) xs"
    by (simp add: rev_filter)
  also have "\<dots> = filter (\<lambda>y. key y = k) xs"
    by (rule eq[symmetric]) simp
  finally show ?thesis .
next
  case False
  then have "\<And>ys. set ys = set xs \<Longrightarrow> filter (\<lambda>y. key y = k) ys = []"
    using assms by (auto simp: filter_empty_conv)
  then show ?thesis by (simp add: set_sort_reverse)
qed

section \<open>What \<open>run\<close> computes\<close>

lemma sort_reverse_Nil: "sort_reverse key [] = []"
  by (simp add: sort_reverse_def stable_sort_def)

lemma scores_length: "length (scores e cfg query docs w) = length docs"
  by (simp add: scores_def inputs_def loop_scores_length)

lemma scores_unit: "s \<in> set (scores e cfg query docs w) \<Longrightarrow> in_unit_interval s"
  by (auto simp: scores_def dest: loop_scores_unit)

lemma run_eq:
  assumes "\<forall>a\<in>set docs. a < length (heap w)"
  shows "run e cfg query docs w =
     (map snd (sort_reverse fst (zip (scores e cfg query docs w) (copies w docs))),
      w\<lparr>heap := heap w @ map2 scored_copy (inputs w docs) (scores e cfg query docs w),
        sent := sent w @ map (doc_request cfg query) (inputs w docs)\<rparr>)"
proof (cases "docs = []")
  case True
  then show ?thesis
    by (simp add: run_def scores_def inputs_def copies_def sort_reverse_Nil)
next
  case False
  then show ?thesis
    by (simp add: run_def score_loop_eq[OF assms] scores_def inputs_def copies_def)
qed

lemma run_out:
  assumes "\<forall>a\<in>set docs. a < length (heap w)"
  shows "fst (run e cfg query docs w) =
     map snd (sort_reverse fst (zip (scores e cfg query docs w) (copies w docs)))"
  by (simp add: run_eq[OF assms])

lemma run_heap:
  assumes "\<forall>a\<in>set docs. a < length (heap w)"
  shows "heap (snd (run e cfg query docs w)) =
     heap w @ map2 scored_copy (inputs w docs) (scores e cfg query docs w)"
  by (simp add: run_eq[OF assms])

lemma run_sent:
  assumes "\<forall>a\<in>set docs. a < length (heap w)"
  shows "sent (snd (run e cfg query docs w)) =
     sent w @ map (doc_request cfg query) (inputs w docs)"
  by (simp add: run_eq[OF assms])

lemma run_copy:
  assumes "\<forall>a\<in>set docs. a < length (heap w)" and "i < length docs"
  shows "heap (snd (run e cfg query docs w)) ! (length (heap w) + i) =
     scored_copy (heap w ! (docs ! i)) (scores e cfg query docs w ! i)"
  using assms(2) by (simp add: run_heap[OF assms(1)] inputs_def scores_length)

lemma mset_run:
  assumes "\<forall>a\<in>set docs. a < length (heap w)"
  shows "mset (fst (run e cfg query docs w)) = mset (copies w docs)"
proof -
  let ?ps = "zip (scores e cfg query docs w) (copies w docs)"
  have "mset (map snd (sort_reverse fst ?ps)) = image_mset snd (mset (sort_reverse fst ?ps))"
    by simp
  also have "\<dots> = mset (map snd ?ps)"
    by (simp only: mset_sort_reverse mset_map)
  also have "\<dots> = mset (copies w docs)"
    by (simp add: scores_length copies_def)
  finally show ?thesis
    by (simp only: run_out[OF assms])
qed

lemma set_run:
  assumes "\<forall>a\<in>set docs. a < length (heap w)"
  shows "set (fst (run e cfg query docs w)) = set (copies w docs)"
  by (metis mset_run[OF assms] set_mset_mset)

lemma rerank_score_scored_copy: "rerank_score (scored_copy d s) = Some s"
  by (simp add: rerank_score_def scored_copy_def metadata_or_empty_def update_conv')

lemma text_scored_copy: "text (scored_copy d s) = text d"
  by (simp add: scored_copy_def)

lemma zip_scores_copies:
  assumes "\<forall>a\<in>set docs. a < length (heap w)"
    and "p \<in> set (zip (scores e cfg query docs w) (copies w docs))"
  shows "rerank_score (heap (snd (run e cfg query docs w)) ! snd p) = Some (fst p)
     \<and> in_unit_interval (fst p)"
proof -
  from assms(2) obtain i where i: "i < length docs"
    and p: "p = (scores e cfg query docs w ! i, length (heap w) + i)"
    by (auto simp: set_zip copies_def scores_length)
  have "scores e cfg query docs w ! i \<in> set (scores e cfg query docs w)"
    using i by (simp add: scores_length)
  then show ?thesis
    using i by (simp add: p run_copy[OF assms(1)] rerank_score_scored_copy scores_unit)
qed

lemma run_scores:
  assumes "\<forall>a\<in>set docs. a < length (heap w)"
  shows "map (\<lambda>a. rerank_score (heap (snd (run e cfg query docs w)) ! a))
           (fst (run e cfg query docs w)) =
         map (Some \<circ> fst) (sort_reverse fst (zip (scores e cfg query docs w) (copies w docs)))"
  by (simp add: run_out[OF assms] set_sort_reverse zip_scores_copies[OF assms])

lemma run_scores_sorted:
  assumes "\<forall>a\<in>set docs. a < length (heap w)"
  shows "sorted_wrt py_ge
           (map fst (sort_reverse fst (zip (scores e cfg query docs w) (copies w docs))))"
  by (rule sort_reverse_sorted) (simp add: zip_scores_copies[OF assms])

lemma run_copies_text:
  assumes "\<forall>a\<in>set docs. a < length (heap w)"
  shows "map (\<lambda>a. text (heap (snd (run e cfg query docs w)) ! a)) (copies w docs) =
         map (\<lambda>a. text (heap w ! a)) docs"
proof (rule nth_equalityI)
  show "length (map (\<lambda>a. text (heap (snd (run e cfg query docs w)) ! a)) (copies w docs)) =
        length (map (\<lambda>a. text (heap w ! a)) docs)"
    by (simp add: copies_def)
next
  fix i
  assume "i < length (map (\<lambda>a. text (heap (snd (run e cfg query docs w)) ! a)) (copies w docs))"
  then have i: "i < length docs" by (simp add: copies_def)
  then show "map (\<lambda>a. text (heap (snd (run e cfg query docs w)) ! a)) (copies w docs) ! i =
             map (\<lambda>a. text (heap w ! a)) docs ! i"
    by (simp add: copies_def run_copy[OF assms] text_scored_copy)
qed

lemma run_heap_length:
  assumes "\<forall>a\<in>set docs. a < length (heap w)"
  shows "length (heap (snd (run e cfg query docs w))) = length (heap w) + length docs"
  by (simp add: run_heap[OF assms] inputs_def scores_length)

lemma metadata_scored_copy:
  "\<exists>m. metadata (scored_copy d s) = Some m
     \<and> m = AList.update ''rerank_score'' (MFloat s)
            (case metadata d of None \<Rightarrow> [] | Some old \<Rightarrow> old)
     \<and> map_of m =
        (case metadata d of None \<Rightarrow> Map.empty | Some old \<Rightarrow> map_of old)
          (''rerank_score'' \<mapsto> MFloat s)"
  by (cases "metadata d") (simp_all add: scored_copy_def metadata_or_empty_def update_conv')

lemma truncate_text_positive:
  assumes "max_tokens cfg = Some n" and "0 < n"
  shows "truncate_text cfg t = (if n < int (length t) then take (nat n) t else t)"
  using assms by (simp add: truncate_text_def slice_to_def)

section \<open>Errors of the scoring call\<close>

lemma raises_Inl: "raises (Inl err)"
  by (simp add: raises_def)

lemma raises_content:
  "raises (case subscript_key message ''content'' of Inl e \<Rightarrow> Inl e | Inr c \<Rightarrow> json_strip c) =
     (case message of
        JObj kvs \<Rightarrow> (case map_of kvs ''content'' of Some (JStr c) \<Rightarrow> False | _ \<Rightarrow> True)
      | _ \<Rightarrow> True)"
proof (cases message)
  case (JObj kvs)
  show ?thesis
  proof (cases "map_of kvs ''content''")
    case None
    then show ?thesis by (simp add: JObj raises_def)
  next
    case (Some c)
    then show ?thesis by (cases c) (simp_all add: JObj raises_def)
  qed
qed (simp_all add: raises_def)

lemma raises_message:
  "raises (case subscript_key choice ''message'' of
             Inl e \<Rightarrow> Inl e
           | Inr message \<Rightarrow>
               (case subscript_key message ''content'' of
                  Inl e \<Rightarrow> Inl e | Inr c \<Rightarrow> json_strip c)) =
     (case choice of
        JObj kvs \<Rightarrow>
          (case map_of kvs ''message'' of
             Some (JObj message) \<Rightarrow>
               (case map_of message ''content'' of Some (JStr c) \<Rightarrow> False | _ \<Rightarrow> True)
           | _ \<Rightarrow> True)
      | _ \<Rightarrow> True)"
proof (cases choice)
  case (JObj kvs)
  show ?thesis
  proof (cases "map_of kvs ''message''")
    case None
    then show ?thesis by (simp add: JObj raises_def)
  next
    case (Some m)
    then show ?thesis
      using raises_content[of m] by (cases m) (simp_all add: JObj raises_def)
  qed
qed (simp_all add: raises_def)

lemma raises_choices:
  "raises (case subscript_0 choices of
             Inl e \<Rightarrow> Inl e
           | Inr choice \<Rightarrow>
               (case subscript_key choice ''message'' of
                  Inl e \<Rightarrow> Inl e
                | Inr message \<Rightarrow>
                    (case subscript_key message ''content'' of
                       Inl e \<Rightarrow> Inl e | Inr c \<Rightarrow> json_strip c))) =
     (case choices of
        JArr (JObj choice # rest) \<Rightarrow>
          (case map_of choice ''message'' of
             Some (JObj message) \<Rightarrow>
               (case map_of message ''content'' of Some (JStr c) \<Rightarrow> False | _ \<Rightarrow> True)
           | _ \<Rightarrow> True)
      | _ \<Rightarrow> True)"
proof (cases choices)
  case (JArr xs)
  show ?thesis
  proof (cases xs)
    case Nil
    then show ?thesis by (simp add: JArr raises_def)
  next
    case (Cons x rest)
    then show ?thesis
      using raises_message[of x] by (cases x) (simp_all add: JArr raises_def)
  qed
next
  case (JStr s)
  then show ?thesis by (cases s) (simp_all add: raises_def)
qed (simp_all add: raises_def)

lemma raises_result:
  "raises (case subscript_key result ''choices'' of
             Inl e \<Rightarrow> Inl e
           | Inr choices \<Rightarrow>
               (case subscript_0 choices of
                  Inl e \<Rightarrow> Inl e
                | Inr choice \<Rightarrow>
                    (case subscript_key choice ''message'' of
                       Inl e \<Rightarrow> Inl e
                     | Inr message \<Rightarrow>
                         (case subscript_key message ''content'' of
                            Inl e \<Rightarrow> Inl e | Inr c \<Rightarrow> json_strip c)))) =
     (\<not> has_reply result)"
proof (cases result)
  case (JObj kvs)
  show ?thesis
  proof (cases "map_of kvs ''choices''")
    case None
    then show ?thesis by (simp add: JObj raises_def has_reply_def)
  next
    case (Some ch)
    show ?thesis
      unfolding JObj has_reply_def
      by (simp add: Some raises_choices[of ch] split: json.splits list.splits option.splits)
  qed
qed (simp_all add: raises_def has_reply_def)

lemma raises_reply_content:
  "raises (reply_content outcome) =
     (case outcome of
        Failed \<Rightarrow> True
      | Response st body \<Rightarrow>
          (400 \<le> st \<and> st < 600) \<or> (case body of None \<Rightarrow> True | Some j \<Rightarrow> \<not> has_reply j))"
proof (cases outcome)
  case Failed
  then show ?thesis by (simp add: reply_content_def raises_def)
next
  case (Response st body)
  show ?thesis
  proof (cases body)
    case None
    then show ?thesis
      using Response by (simp add: reply_content_def raises_def raise_for_status_def)
  next
    case (Some j)
    show ?thesis
      using raises_result[of j]
      by (auto simp: Response Some reply_content_def raise_for_status_def raises_Inl)
  qed
qed

lemma raises_try_score:
  "raises (reply_content outcome) \<Longrightarrow> raises (try_score rnd outcome)"
  by (auto simp: try_score_def raises_def split: sum.splits)

lemma score_relevance_raises:
  assumes "raises (try_score (double_of e) (respond e (sent w) (chat_request cfg query doc)))"
  shows "score_relevance e cfg query doc w =
     (default_score, w\<lparr>sent := sent w @ [chat_request cfg query doc]\<rparr>)"
  using assms by (simp add: score_relevance_eq raises_def split: sum.splits)

section \<open>The pattern and the strings it matches\<close>










section \<open>Matched strings are floats\<close>













section \<open>Substrings of the listed shapes\<close>







section \<open>Order within a filtered list\<close>

lemma sorted_wrt_filter_iff:
  "sorted_wrt R (filter P xs) = sorted_wrt (\<lambda>a b. P a \<and> P b \<longrightarrow> R a b) xs"
  by (induction xs) auto

section \<open>The concrete run, evaluated\<close>

lemma demo_refs: "\<forall>a\<in>set [0, 1, 2, 3]. a < length (heap demo_world)"
  by (simp add: demo_world_def)

lemma demo_refs_all: "list_all (\<lambda>a. a < length (heap demo_world)) [0, 1, 2, 3]"
  by (simp add: demo_world_def)

lemma demo_out:
  "fst (run demo_env demo_config ''capital of France'' [0, 1, 2, 3] demo_world) = [5, 6, 7, 4]"
  by code_simp

lemma demo_scores:
  "map (\<lambda>a. rerank_score
          (heap (snd (run demo_env demo_config ''capital of France'' [0, 1, 2, 3] demo_world)) ! a))
     [5, 6, 7, 4] =
   [Some (Fin (19 / 20)), Some (Fin (1 / 2)), Some (Fin (1 / 2)), Some (Fin (1 / 10))]"
  by code_simp

lemma demo_metadata:
  "map (\<lambda>a. metadata
          (heap (snd (run demo_env demo_config ''capital of France'' [0, 1, 2, 3] demo_world)) ! a))
     [5, 6, 7, 4] =
   [Some [(''source'', MStr ''wiki''), (''rerank_score'', MFloat (Fin (19 / 20)))],
    Some [(''rerank_score'', MFloat (Fin (1 / 2)))],
    Some [(''page'', MInt 7), (''rerank_score'', MFloat (Fin (1 / 2)))],
    Some [(''rerank_score'', MFloat (Fin (1 / 10)))]]"
  by code_simp

lemma demo_truncated: "truncate_text short_config ''Bananas are yellow.'' = ''Banan''"
  by code_simp

lemma demo_down:
  "raises (try_score (double_of down_env)
     (respond down_env (sent demo_world)
        (chat_request demo_config ''capital of France'' ''Bananas are yellow.'')))"
  by (simp add: down_env_def try_score_def reply_content_def raises_def)

lemma status_300_outcome:
  "respond choices_env (sent demo_world)
     (chat_request demo_config ''capital of France'' ''Bananas are yellow.'') =
     Response 300
       (Some (JObj [(''choices'',
          JArr [JObj [(''message'', JObj [(''content'', JStr ''0.9'')])]])]))"
  by (simp add: choices_env_def)

lemma status_300_score:
  "fst (score_relevance choices_env demo_config ''capital of France''
          ''Bananas are yellow.'' demo_world) = Fin (9 / 10)"
  by code_simp










section \<open>The claims\<close>

text \<open>
  In the statements below \<open>docs\<close> are the references passed to \<open>run\<close> and \<open>w\<close> is the
  world before the call; every reference points to an existing document. \<open>run\<close> returns
  the references \<open>out\<close> and the world \<open>w'\<close> after the call.
\<close>

subsection \<open>C1: the result is a permutation of the input\<close>

text \<open>
  Claim C1. For every query and every list of documents, the list that \<open>run\<close> returns has
  the length of the input, the texts of its documents are the texts of the input
  documents with the same multiplicities, and no document occurs in it twice.
\<close>

theorem run_permutation:
  assumes "\<forall>a\<in>set docs. a < length (heap w)"
  shows "case run e cfg query docs w of
           (out, w') \<Rightarrow>
             length out = length docs
             \<and> mset (map (\<lambda>a. text (heap w' ! a)) out) = mset (map (\<lambda>a. text (heap w ! a)) docs)
             \<and> distinct out"
proof -
  obtain out w' where R: "run e cfg query docs w = (out, w')"
    by (cases "run e cfg query docs w")
  have m: "mset out = mset (copies w docs)"
    using mset_run[OF assms, of e cfg query] by (simp add: R)
  have len: "length out = length docs"
    using arg_cong[OF m, of size] by (simp add: copies_def)
  have "mset (map (\<lambda>a. text (heap w' ! a)) out) = mset (map (\<lambda>a. text (heap w' ! a)) (copies w docs))"
    using arg_cong[OF m, of "image_mset (\<lambda>a. text (heap w' ! a))"] by simp
  also have "\<dots> = mset (map (\<lambda>a. text (heap w ! a)) docs)"
    using run_copies_text[OF assms, of e cfg query] by (simp add: R)
  finally have texts: "mset (map (\<lambda>a. text (heap w' ! a)) out) = mset (map (\<lambda>a. text (heap w ! a)) docs)" .
  have "distinct (copies w docs)" by (simp add: copies_def)
  then have "distinct out"
    using m by (metis mset_eq_imp_distinct_iff)
  with len texts show ?thesis by (simp add: R)
qed

theorem run_permutation_witness:
  "list_all (\<lambda>a. a < length (heap demo_world)) [0, 1, 2, 3] \<and>
   fst (run demo_env demo_config ''capital of France'' [0, 1, 2, 3] demo_world) = [5, 6, 7, 4] \<and>
   (case run demo_env demo_config ''capital of France'' [0, 1, 2, 3] demo_world of
      (out, w') \<Rightarrow>
        length out = length [0, 1, 2, 3 :: nat]
        \<and> mset (map (\<lambda>a. text (heap w' ! a)) out) =
            mset (map (\<lambda>a. text (heap demo_world ! a)) [0, 1, 2, 3])
        \<and> distinct out)"
proof -
  note T = run_permutation[where e = demo_env and cfg = demo_config and query = "''capital of France''"
      and docs = "[0, 1, 2, 3]" and w = demo_world, OF demo_refs]
  show ?thesis by (rule conjI[OF demo_refs_all conjI[OF demo_out T]])
qed

subsection \<open>C2: the result is ordered by non-increasing score\<close>

text \<open>
  Claim C2. For all positions \<open>i < j\<close> of the list that \<open>run\<close> returns, both documents
  carry a \<open>rerank_score\<close> and the score at \<open>i\<close> is greater than or equal to the score
  at \<open>j\<close>.
\<close>

theorem run_sorted:
  assumes "\<forall>a\<in>set docs. a < length (heap w)"
  shows "case run e cfg query docs w of
           (out, w') \<Rightarrow>
             \<forall>i j. i < j \<and> j < length out \<longrightarrow>
               (\<exists>a b. rerank_score (heap w' ! (out ! i)) = Some a
                    \<and> rerank_score (heap w' ! (out ! j)) = Some b
                    \<and> py_ge a b)"
proof -
  obtain out w' where R: "run e cfg query docs w = (out, w')"
    by (cases "run e cfg query docs w")
  let ?ps = "sort_reverse fst (zip (scores e cfg query docs w) (copies w docs))"
  have sc: "map (\<lambda>a. rerank_score (heap w' ! a)) out = map (Some \<circ> fst) ?ps"
    using run_scores[OF assms, of e cfg query] by (simp add: R)
  have len: "length ?ps = length out"
    using arg_cong[OF sc, of length] by simp
  have srt: "sorted_wrt py_ge (map fst ?ps)"
    by (rule run_scores_sorted[OF assms])
  have "\<exists>a b. rerank_score (heap w' ! (out ! i)) = Some a
             \<and> rerank_score (heap w' ! (out ! j)) = Some b \<and> py_ge a b"
    if ij: "i < j" "j < length out" for i j
  proof -
    have "rerank_score (heap w' ! (out ! i)) = map (\<lambda>a. rerank_score (heap w' ! a)) out ! i"
      using ij by simp
    then have a: "rerank_score (heap w' ! (out ! i)) = Some (fst (?ps ! i))"
      using ij len by (simp add: sc)
    have "rerank_score (heap w' ! (out ! j)) = map (\<lambda>a. rerank_score (heap w' ! a)) out ! j"
      using ij by simp
    then have b: "rerank_score (heap w' ! (out ! j)) = Some (fst (?ps ! j))"
      using ij len by (simp add: sc)
    have "py_ge (map fst ?ps ! i) (map fst ?ps ! j)"
      using srt ij len by (intro sorted_wrt_nth_less) simp_all
    then have "py_ge (fst (?ps ! i)) (fst (?ps ! j))"
      using ij len by simp
    with a b show ?thesis by blast
  qed
  then show ?thesis by (simp add: R)
qed

theorem run_sorted_witness:
  "list_all (\<lambda>a. a < length (heap demo_world)) [0, 1, 2, 3] \<and>
   fst (run demo_env demo_config ''capital of France'' [0, 1, 2, 3] demo_world) = [5, 6, 7, 4] \<and>
   map (\<lambda>a. rerank_score
          (heap (snd (run demo_env demo_config ''capital of France'' [0, 1, 2, 3] demo_world)) ! a))
     [5, 6, 7, 4] =
   [Some (Fin (19 / 20)), Some (Fin (1 / 2)), Some (Fin (1 / 2)), Some (Fin (1 / 10))] \<and>
   (case run demo_env demo_config ''capital of France'' [0, 1, 2, 3] demo_world of
      (out, w') \<Rightarrow>
        \<forall>i j. i < j \<and> j < length out \<longrightarrow>
          (\<exists>a b. rerank_score (heap w' ! (out ! i)) = Some a
               \<and> rerank_score (heap w' ! (out ! j)) = Some b
               \<and> py_ge a b))"
proof -
  note T = run_sorted[where e = demo_env and cfg = demo_config and query = "''capital of France''"
      and docs = "[0, 1, 2, 3]" and w = demo_world, OF demo_refs]
  show ?thesis by (rule conjI[OF demo_refs_all conjI[OF demo_out conjI[OF demo_scores T]]])
qed

subsection \<open>C3: every score lies between 0.0 and 1.0\<close>



subsection \<open>C4: documents with equal scores keep their input order\<close>

text \<open>
  Claim C4. The sort is stable. The document at reference \<open>length (heap w) + i\<close> is the
  one built from the \<open>i\<close>-th input document, so \<open>copies w docs\<close> lists the new documents
  in input order; for every score, the documents of the result that have this score are
  the new documents that have it, in input order. So of two documents of the result
  with equal scores, the one that comes first is built from the earlier input.
\<close>

theorem run_stable:
  assumes "\<forall>a\<in>set docs. a < length (heap w)"
  shows "case run e cfg query docs w of
           (out, w') \<Rightarrow>
             map (\<lambda>a. text (heap w' ! a)) (copies w docs) = map (\<lambda>a. text (heap w ! a)) docs
             \<and> (\<forall>s. filter (\<lambda>a. rerank_score (heap w' ! a) = Some s) out =
                     filter (\<lambda>a. rerank_score (heap w' ! a) = Some s) (copies w docs))
             \<and> (\<forall>i j. i < j \<and> j < length out
                     \<and> rerank_score (heap w' ! (out ! i)) = rerank_score (heap w' ! (out ! j))
                   \<longrightarrow> out ! i < out ! j)"
proof -
  obtain out w' where R: "run e cfg query docs w = (out, w')"
    by (cases "run e cfg query docs w")
  let ?zs = "zip (scores e cfg query docs w) (copies w docs)"
  let ?ps = "sort_reverse fst ?zs"
  have out: "out = map snd ?ps"
    using run_out[OF assms, of e cfg query] by (simp add: R)
  have pair: "rerank_score (heap w' ! snd p) = Some (fst p) \<and> in_unit_interval (fst p)"
    if "p \<in> set ?zs" for p
    using zip_scores_copies[OF assms that] by (simp add: R)
  have texts: "map (\<lambda>a. text (heap w' ! a)) (copies w docs) = map (\<lambda>a. text (heap w ! a)) docs"
    using run_copies_text[OF assms, of e cfg query] by (simp add: R)
  have "filter (\<lambda>a. rerank_score (heap w' ! a) = Some s) out =
        filter (\<lambda>a. rerank_score (heap w' ! a) = Some s) (copies w docs)" for s
  proof -
    have "filter (\<lambda>a. rerank_score (heap w' ! a) = Some s) out =
          map snd (filter (\<lambda>p. rerank_score (heap w' ! snd p) = Some s) ?ps)"
      by (simp add: out filter_map comp_def)
    also have "filter (\<lambda>p. rerank_score (heap w' ! snd p) = Some s) ?ps =
               filter (\<lambda>p. fst p = s) ?ps"
      by (rule filter_cong) (simp_all add: set_sort_reverse pair)
    also have "\<dots> = filter (\<lambda>p. fst p = s) ?zs"
      by (rule sort_reverse_stable) (simp add: pair)
    also have "\<dots> = filter (\<lambda>p. rerank_score (heap w' ! snd p) = Some s) ?zs"
      by (rule filter_cong) (simp_all add: pair)
    also have "map snd \<dots> = filter (\<lambda>a. rerank_score (heap w' ! a) = Some s) (map snd ?zs)"
      by (simp add: filter_map comp_def)
    also have "map snd ?zs = copies w docs"
      by (simp add: scores_length copies_def)
    finally show ?thesis .
  qed
  note same = this
  have "out ! i < out ! j"
    if ij: "i < j" "j < length out"
      and eq: "rerank_score (heap w' ! (out ! i)) = rerank_score (heap w' ! (out ! j))"
    for i j
  proof -
    have "out ! i \<in> set out"
      using ij by simp
    then have "out ! i \<in> snd ` set ?ps"
      by (simp only: out set_map)
    then obtain p where p: "p \<in> set ?zs" "out ! i = snd p"
      by (auto simp: set_sort_reverse)
    define s where "s = fst p"
    have si: "rerank_score (heap w' ! (out ! i)) = Some s"
      using pair[OF p(1)] by (simp add: p(2) s_def)
    then have sj: "rerank_score (heap w' ! (out ! j)) = Some s"
      using eq by simp
    have "sorted_wrt (<) (copies w docs)"
      by (simp add: copies_def)
    then have "sorted_wrt (<) (filter (\<lambda>a. rerank_score (heap w' ! a) = Some s) (copies w docs))"
      by (rule sorted_wrt_filter)
    then have "sorted_wrt (<) (filter (\<lambda>a. rerank_score (heap w' ! a) = Some s) out)"
      by (simp only: same)
    then have "sorted_wrt (\<lambda>a b. rerank_score (heap w' ! a) = Some s
                 \<and> rerank_score (heap w' ! b) = Some s \<longrightarrow> a < b) out"
      by (simp only: sorted_wrt_filter_iff)
    from sorted_wrt_nth_less[OF this ij] si sj show ?thesis by simp
  qed
  with texts same show ?thesis by (simp add: R)
qed

theorem run_stable_witness:
  "list_all (\<lambda>a. a < length (heap demo_world)) [0, 1, 2, 3] \<and>
   fst (run demo_env demo_config ''capital of France'' [0, 1, 2, 3] demo_world) = [5, 6, 7, 4] \<and>
   map (\<lambda>a. rerank_score
          (heap (snd (run demo_env demo_config ''capital of France'' [0, 1, 2, 3] demo_world)) ! a))
     [5, 6, 7, 4] =
   [Some (Fin (19 / 20)), Some (Fin (1 / 2)), Some (Fin (1 / 2)), Some (Fin (1 / 10))] \<and>
   (case run demo_env demo_config ''capital of France'' [0, 1, 2, 3] demo_world of
      (out, w') \<Rightarrow>
        map (\<lambda>a. text (heap w' ! a)) (copies demo_world [0, 1, 2, 3]) =
          map (\<lambda>a. text (heap demo_world ! a)) [0, 1, 2, 3]
        \<and> (\<forall>s. filter (\<lambda>a. rerank_score (heap w' ! a) = Some s) out =
                filter (\<lambda>a. rerank_score (heap w' ! a) = Some s)
                  (copies demo_world [0, 1, 2, 3]))
        \<and> (\<forall>i j. i < j \<and> j < length out
                \<and> rerank_score (heap w' ! (out ! i)) = rerank_score (heap w' ! (out ! j))
              \<longrightarrow> out ! i < out ! j))"
proof -
  note T = run_stable[where e = demo_env and cfg = demo_config and query = "''capital of France''"
      and docs = "[0, 1, 2, 3]" and w = demo_world, OF demo_refs]
  show ?thesis by (rule conjI[OF demo_refs_all conjI[OF demo_out conjI[OF demo_scores T]]])
qed

subsection \<open>C5: errors of a scoring call become the default score\<close>

text \<open>
  Claim C5 as stated: every error of the scoring call, a status outside 200 to 299
  among them, is caught and gives the score 0.5. It fails for the status 300:
  \<open>raise_for_status\<close> raises for the statuses 400 to 599 only, so a response with the
  status 300 and the reply \<open>0.9\<close> gives the score 0.9.
\<close>

theorem status_300_counterexample:
  "respond choices_env (sent demo_world)
     (chat_request demo_config ''capital of France'' ''Bananas are yellow.'') =
     Response 300
       (Some (JObj [(''choices'',
          JArr [JObj [(''message'', JObj [(''content'', JStr ''0.9'')])]])]))
   \<and> fst (score_relevance choices_env demo_config ''capital of France''
          ''Bananas are yellow.'' demo_world) = Fin (9 / 10)
   \<and> default_score = Fin (1 / 2)"
  by (rule conjI[OF status_300_outcome conjI[OF status_300_score default_score_def]])

text \<open>
  Claim C5, amended. Every error raised in the body of the \<open>try\<close> statement of
  \<open>_score_relevance\<close> is caught and the call returns 0.5: a failed post, a status from
  400 to 599 (those for which \<open>raise_for_status\<close> raises), a body that is not JSON,
  and a body without the expected fields all raise. No error leaves \<open>run\<close>: it returns
  as many documents as it was given, each with a score, ordered by non-increasing score.
\<close>

theorem scoring_errors_absorbed:
  assumes "\<forall>a\<in>set docs. a < length (heap w)"
  shows "(raises (try_score (double_of e) (respond e (sent w) (chat_request cfg query doc)))
           \<longrightarrow> score_relevance e cfg query doc w =
                 (default_score, w\<lparr>sent := sent w @ [chat_request cfg query doc]\<rparr>))
     \<and> raises (try_score rnd Failed)
     \<and> (400 \<le> st \<and> st < 600 \<longrightarrow> raises (try_score rnd (Response st body)))
     \<and> raises (try_score rnd (Response st None))
     \<and> (\<not> has_reply j \<longrightarrow> raises (try_score rnd (Response st (Some j))))
     \<and> (case run e cfg query docs w of
          (out, w') \<Rightarrow>
            length out = length docs
            \<and> list_all (\<lambda>a. \<exists>s. rerank_score (heap w' ! a) = Some s) out
            \<and> sorted_wrt (\<lambda>a b. \<exists>x y. rerank_score (heap w' ! a) = Some x
                                  \<and> rerank_score (heap w' ! b) = Some y \<and> py_ge x y) out)"
proof -
  obtain out w' where R: "run e cfg query docs w = (out, w')"
    by (cases "run e cfg query docs w")
  let ?ps = "sort_reverse fst (zip (scores e cfg query docs w) (copies w docs))"
  have kinds: "raises (try_score rnd Failed)"
    "400 \<le> st \<and> st < 600 \<longrightarrow> raises (try_score rnd (Response st body))"
    "raises (try_score rnd (Response st None))"
    "\<not> has_reply j \<longrightarrow> raises (try_score rnd (Response st (Some j)))"
    by (simp_all add: raises_try_score raises_reply_content)
  have out: "out = map snd ?ps"
    using run_out[OF assms, of e cfg query] by (simp add: R)
  have pair: "rerank_score (heap w' ! snd p) = Some (fst p)" if "p \<in> set ?ps" for p
    using zip_scores_copies[OF assms, of p e cfg query] that by (simp add: R set_sort_reverse)
  have len: "length out = length docs"
    by (simp add: out length_sort_reverse scores_length copies_def)
  have all: "list_all (\<lambda>a. \<exists>s. rerank_score (heap w' ! a) = Some s) out"
    by (simp add: out list_all_iff pair)
  have "sorted_wrt py_ge (map fst ?ps)"
    by (rule run_scores_sorted[OF assms])
  then have "sorted_wrt (\<lambda>p q. py_ge (fst p) (fst q)) ?ps"
    by (simp add: sorted_wrt_map)
  then have "sorted_wrt (\<lambda>p q. \<exists>x y. rerank_score (heap w' ! snd p) = Some x
                                  \<and> rerank_score (heap w' ! snd q) = Some y \<and> py_ge x y) ?ps"
    by (rule sorted_wrt_mono_rel[rotated]) (simp add: pair)
  then have srt: "sorted_wrt (\<lambda>a b. \<exists>x y. rerank_score (heap w' ! a) = Some x
                                  \<and> rerank_score (heap w' ! b) = Some y \<and> py_ge x y) out"
    by (simp add: out sorted_wrt_map)
  show ?thesis
    using kinds len all srt by (simp add: R score_relevance_raises)
qed

theorem scoring_errors_absorbed_witness:
  "list_all (\<lambda>a. a < length (heap demo_world)) [0, 1, 2, 3] \<and>
   raises (try_score (double_of down_env)
     (respond down_env (sent demo_world)
        (chat_request demo_config ''capital of France'' ''Bananas are yellow.''))) \<and>
   score_relevance down_env demo_config ''capital of France'' ''Bananas are yellow.'' demo_world =
     (default_score,
      demo_world\<lparr>sent := sent demo_world @
        [chat_request demo_config ''capital of France'' ''Bananas are yellow.'']\<rparr>) \<and>
   (400 \<le> (404 :: nat) \<and> (404 :: nat) < 600) \<and>
   raises (try_score Fin (Response 404 (Some JNull))) \<and>
   \<not> has_reply (JObj []) \<and>
   raises (try_score Fin (Response 200 (Some (JObj [])))) \<and>
   (case run down_env demo_config ''capital of France'' [0, 1, 2, 3] demo_world of
      (out, w') \<Rightarrow>
        length out = length [0, 1, 2, 3 :: nat]
        \<and> list_all (\<lambda>a. \<exists>s. rerank_score (heap w' ! a) = Some s) out
        \<and> sorted_wrt (\<lambda>a b. \<exists>x y. rerank_score (heap w' ! a) = Some x
                              \<and> rerank_score (heap w' ! b) = Some y \<and> py_ge x y) out)"
proof -
  have st: "400 \<le> (404 :: nat) \<and> (404 :: nat) < 600" by simp
  have nr: "\<not> has_reply (JObj [])" by (simp add: has_reply_def)
  note T = scoring_errors_absorbed[where e = down_env and cfg = demo_config and query = "''capital of France''"
      and docs = "[0, 1, 2, 3]" and w = demo_world
      and doc = "''Bananas are yellow.''" and rnd = Fin and st = 404 and body = "Some JNull"
      and j = "JObj []", OF demo_refs]
  note T2 = scoring_errors_absorbed[where e = down_env and cfg = demo_config and query = "''capital of France''"
      and docs = "[0, 1, 2, 3]" and w = demo_world
      and doc = "''Bananas are yellow.''" and rnd = Fin and st = 200 and body = "Some JNull"
      and j = "JObj []", OF demo_refs]
  note absorbed = T[THEN conjunct1, THEN mp, OF demo_down]
  note status = T[THEN conjunct2, THEN conjunct2, THEN conjunct1, THEN mp, OF st]
  note fields = T2[THEN conjunct2, THEN conjunct2, THEN conjunct2, THEN conjunct2,
      THEN conjunct1, THEN mp, OF nr]
  note returns = T[THEN conjunct2, THEN conjunct2, THEN conjunct2, THEN conjunct2,
      THEN conjunct2]
  show ?thesis
    by (rule conjI[OF demo_refs_all conjI[OF demo_down conjI[OF absorbed conjI[OF st
          conjI[OF status conjI[OF nr conjI[OF fields returns]]]]]]])
qed

subsection \<open>C6: the fallback pattern\<close>




subsection \<open>C7: truncation of the text sent to the endpoint\<close>

text \<open>
  Claim C7 as stated: for a configured maximal length \<open>N\<close>, a text longer than \<open>N\<close> is
  sent as its first \<open>N\<close> characters. It fails for \<open>N = 0\<close>: the text \<open>abc\<close> is longer
  than 0 and is sent whole, not as the empty string.
\<close>

theorem run_truncates_counterexample:
  "max_tokens (demo_config\<lparr>max_tokens := Some 0\<rparr>) = Some 0
   \<and> 0 < int (length ''abc'')
   \<and> truncate_text (demo_config\<lparr>max_tokens := Some 0\<rparr>) ''abc'' \<noteq> take (nat 0) ''abc''"
  by (simp add: truncate_text_def)

text \<open>
  Claim C7, amended. For a configured maximal length \<open>N > 0\<close>, \<open>_truncate_text\<close>
  returns the first \<open>N\<close> characters of a text longer than \<open>N\<close> and every other text
  unchanged. The requests that \<open>run\<close>
  sends carry, in input order, the prompt built from the first \<open>N\<close> characters of each
  text longer than \<open>N\<close> and from the whole text otherwise; the documents that \<open>run\<close>
  returns are the new documents, and these keep the whole text.
\<close>

theorem run_truncates:
  assumes "\<forall>a\<in>set docs. a < length (heap w)" and "max_tokens cfg = Some n" and "0 < n"
  shows "truncate_text cfg t = (if n < int (length t) then take (nat n) t else t)
     \<and> (case run e cfg query docs w of
           (out, w') \<Rightarrow>
             map content (drop (length (sent w)) (sent w')) =
               map (\<lambda>a. prompt query
                      (if n < int (length (text (heap w ! a)))
                       then take (nat n) (text (heap w ! a)) else text (heap w ! a))) docs
             \<and> map (\<lambda>a. text (heap w' ! a)) (copies w docs) = map (\<lambda>a. text (heap w ! a)) docs
             \<and> set out = set (copies w docs))"
proof -
  obtain out w' where R: "run e cfg query docs w = (out, w')"
    by (cases "run e cfg query docs w")
  have "sent w' = sent w @ map (doc_request cfg query) (inputs w docs)"
    using run_sent[OF assms(1), of e cfg query] by (simp add: R)
  then have "map content (drop (length (sent w)) (sent w')) =
      map (\<lambda>a. content (doc_request cfg query (heap w ! a))) docs"
    by (simp add: inputs_def comp_def)
  also have "\<dots> = map (\<lambda>a. prompt query
                      (if n < int (length (text (heap w ! a)))
                       then take (nat n) (text (heap w ! a)) else text (heap w ! a))) docs"
    by (simp add: doc_request_def chat_request_def truncate_text_positive[OF assms(2,3)])
  finally have req: "map content (drop (length (sent w)) (sent w')) =
      map (\<lambda>a. prompt query
                      (if n < int (length (text (heap w ! a)))
                       then take (nat n) (text (heap w ! a)) else text (heap w ! a))) docs" .
  have texts: "map (\<lambda>a. text (heap w' ! a)) (copies w docs) = map (\<lambda>a. text (heap w ! a)) docs"
    using run_copies_text[OF assms(1), of e cfg query] by (simp add: R)
  have "set out = set (copies w docs)"
    using set_run[OF assms(1), of e cfg query] by (simp add: R)
  with req texts show ?thesis
    by (simp add: R truncate_text_positive[OF assms(2,3)])
qed

theorem run_truncates_witness:
  "list_all (\<lambda>a. a < length (heap demo_world)) [0, 1, 2, 3] \<and>
   max_tokens short_config = Some 5 \<and> (0 :: int) < 5 \<and>
   truncate_text short_config ''Bananas are yellow.'' = ''Banan'' \<and>
   truncate_text short_config ''Bananas are yellow.'' =
     (if 5 < int (length ''Bananas are yellow.'') then take (nat 5) ''Bananas are yellow.''
      else ''Bananas are yellow.'') \<and>
   (case run demo_env short_config ''capital of France'' [0, 1, 2, 3] demo_world of
      (out, w') \<Rightarrow>
        map content (drop (length (sent demo_world)) (sent w')) =
          map (\<lambda>a. prompt ''capital of France''
                 (if 5 < int (length (text (heap demo_world ! a)))
                  then take (nat 5) (text (heap demo_world ! a))
                  else text (heap demo_world ! a))) [0, 1, 2, 3]
        \<and> map (\<lambda>a. text (heap w' ! a)) (copies demo_world [0, 1, 2, 3]) =
            map (\<lambda>a. text (heap demo_world ! a)) [0, 1, 2, 3]
        \<and> set out = set (copies demo_world [0, 1, 2, 3]))"
proof -
  have m: "max_tokens short_config = Some 5" by (simp add: short_config_def)
  have p: "(0 :: int) < 5" by simp
  note T = run_truncates[where e = demo_env and cfg = short_config and query = "''capital of France''"
      and docs = "[0, 1, 2, 3]" and w = demo_world and n = 5
      and t = "''Bananas are yellow.''", OF demo_refs m p]
  show ?thesis by (rule conjI[OF demo_refs_all conjI[OF m conjI[OF p conjI[OF demo_truncated T]]]])
qed

subsection \<open>C8: the empty input\<close>

text \<open>
  Claim C8. For every query, \<open>run\<close> on the empty list returns the empty list and leaves
  the world as it is: no request is sent.
\<close>

theorem run_empty:
  "run e cfg query [] w = ([], w) \<and> sent (snd (run e cfg query [] w)) = sent w"
  by (simp add: run_def)

subsection \<open>C9: the input documents are not changed\<close>

text \<open>
  Claim C9. \<open>run\<close> changes no existing document: the store after the call starts with
  the store before it. Every returned reference is a new object; it has the text of the
  input document it was built from, and its metadata is the \<open>metadata\<close> field of that
  document (the empty dict when the field is \<open>None\<close>) with the key \<open>rerank_score\<close> set
  to the score and every other entry as before.
\<close>

theorem run_frame:
  assumes "\<forall>a\<in>set docs. a < length (heap w)"
  shows "case run e cfg query docs w of
           (out, w') \<Rightarrow>
             take (length (heap w)) (heap w') = heap w
             \<and> (\<forall>a\<in>set out.
                  length (heap w) \<le> a \<and> a < length (heap w')
                  \<and> a - length (heap w) < length docs
                  \<and> text (heap w' ! a) = text (heap w ! (docs ! (a - length (heap w))))
                  \<and> (\<exists>m s. metadata (heap w' ! a) = Some m
                        \<and> m = AList.update ''rerank_score'' (MFloat s)
                               (case metadata (heap w ! (docs ! (a - length (heap w)))) of
                                  None \<Rightarrow> [] | Some old \<Rightarrow> old)
                        \<and> map_of m =
                           (case metadata (heap w ! (docs ! (a - length (heap w)))) of
                              None \<Rightarrow> Map.empty | Some old \<Rightarrow> map_of old)
                             (''rerank_score'' \<mapsto> MFloat s)
                        \<and> rerank_score (heap w' ! a) = Some s))"
proof -
  obtain out w' where R: "run e cfg query docs w = (out, w')"
    by (cases "run e cfg query docs w")
  have old: "take (length (heap w)) (heap w') = heap w"
    using run_heap[OF assms, of e cfg query] by (simp add: R)
  have len: "length (heap w') = length (heap w) + length docs"
    using run_heap_length[OF assms, of e cfg query] by (simp add: R)
  have new: "length (heap w) \<le> a \<and> a < length (heap w')
       \<and> a - length (heap w) < length docs
       \<and> text (heap w' ! a) = text (heap w ! (docs ! (a - length (heap w))))
       \<and> (\<exists>m s. metadata (heap w' ! a) = Some m
             \<and> m = AList.update ''rerank_score'' (MFloat s)
                    (case metadata (heap w ! (docs ! (a - length (heap w)))) of
                       None \<Rightarrow> [] | Some old \<Rightarrow> old)
             \<and> map_of m =
                (case metadata (heap w ! (docs ! (a - length (heap w)))) of
                   None \<Rightarrow> Map.empty | Some old \<Rightarrow> map_of old)
                  (''rerank_score'' \<mapsto> MFloat s)
             \<and> rerank_score (heap w' ! a) = Some s)"
    if "a \<in> set out" for a
  proof -
    have "a \<in> set (copies w docs)"
      using that set_run[OF assms, of e cfg query] by (simp add: R)
    then obtain i where i: "i < length docs" and a: "a = length (heap w) + i"
      by (auto simp: copies_def intro: that dest: le_Suc_ex)
    have c: "heap w' ! (length (heap w) + i) =
        scored_copy (heap w ! (docs ! i)) (scores e cfg query docs w ! i)"
      using run_copy[OF assms i, of e cfg query] by (simp add: R)
    show ?thesis
      using i metadata_scored_copy[of "heap w ! (docs ! i)" "scores e cfg query docs w ! i"]
      by (auto simp: c a len text_scored_copy rerank_score_scored_copy)
  qed
  from old new show ?thesis by (simp add: R)
qed

theorem run_frame_witness:
  "list_all (\<lambda>a. a < length (heap demo_world)) [0, 1, 2, 3] \<and>
   fst (run demo_env demo_config ''capital of France'' [0, 1, 2, 3] demo_world) = [5, 6, 7, 4] \<and>
   map (\<lambda>a. metadata
          (heap (snd (run demo_env demo_config ''capital of France'' [0, 1, 2, 3] demo_world)) ! a))
     [5, 6, 7, 4] =
   [Some [(''source'', MStr ''wiki''), (''rerank_score'', MFloat (Fin (19 / 20)))],
    Some [(''rerank_score'', MFloat (Fin (1 / 2)))],
    Some [(''page'', MInt 7), (''rerank_score'', MFloat (Fin (1 / 2)))],
    Some [(''rerank_score'', MFloat (Fin (1 / 10)))]] \<and>
   (case run demo_env demo_config ''capital of France'' [0, 1, 2, 3] demo_world of
      (out, w') \<Rightarrow>
        take (length (heap demo_world)) (heap w') = heap demo_world
        \<and> (\<forall>a\<in>set out.
             length (heap demo_world) \<le> a \<and> a < length (heap w')
             \<and> a - length (heap demo_world) < length [0, 1, 2, 3 :: nat]
             \<and> text (heap w' ! a) =
                 text (heap demo_world ! ([0, 1, 2, 3] ! (a - length (heap demo_world))))
             \<and> (\<exists>m s. metadata (heap w' ! a) = Some m
                   \<and> m = AList.update ''rerank_score'' (MFloat s)
                          (case metadata (heap demo_world ! ([0, 1, 2, 3] ! (a - length (heap demo_world)))) of
                             None \<Rightarrow> [] | Some old \<Rightarrow> old)
                   \<and> map_of m =
                      (case metadata (heap demo_world ! ([0, 1, 2, 3] ! (a - length (heap demo_world)))) of
                         None \<Rightarrow> Map.empty | Some old \<Rightarrow> map_of old)
                        (''rerank_score'' \<mapsto> MFloat s)
                   \<and> rerank_score (heap w' ! a) = Some s)))"
proof -
  note T = run_frame[where e = demo_env and cfg = demo_config and query = "''capital of France''"
      and docs = "[0, 1, 2, 3]" and w = demo_world, OF demo_refs]
  show ?thesis by (rule conjI[OF demo_refs_all conjI[OF demo_out conjI[OF demo_metadata T]]])
qed

subsection \<open>C10: a maximal length of zero disables truncation\<close>

text \<open>
  Claim C10. When the configured maximal length is 0, \<open>_truncate_text\<close> returns every
  text unchanged.
\<close>

theorem zero_max_tokens_keeps_text: "truncate_text (cfg\<lparr>max_tokens := Some 0\<rparr>) t = t"
  by (simp add: truncate_text_def)

end
